theory Spec2Isabelle
  imports Complex_Main "HOL-Library.Word"
begin

unbundle bit_operations_syntax

section \<open>Data model of corsair\_h80i\_v2.c\<close>

text \<open>
  The program drives a Corsair H80i V2 cooler through libusb.  Its only data structure is
  \<^verbatim>\<open>corsair_device_t\<close>: a pointer to a libusb device handle and one 64-byte buffer that
  every transfer, outbound or inbound, goes through.  A byte is an \<^verbatim>\<open>unsigned char\<close>; a
  pointer is either \<^verbatim>\<open>NULL\<close> (\<open>None\<close>) or the name of a live object (\<open>Some h\<close>).
\<close>

type_synonym byte = "8 word"
type_synonym libusb_device_handle = nat

record corsair_device_t =
  handle :: "libusb_device_handle option"
  buffer :: "byte list"

definition BUFFER_SIZE :: nat where
  "BUFFER_SIZE = 64"

definition CORSAIR_VID :: nat where "CORSAIR_VID = 0x1b1c"
definition H80I_V2_PID :: nat where "H80I_V2_PID = 0x0c12"

definition EP_OUT :: byte where "EP_OUT = 0x02"
definition EP_IN :: byte where "EP_IN = 0x81"

definition CMD_INIT :: byte where "CMD_INIT = 0x00"
definition CMD_GET_STATUS :: byte where "CMD_GET_STATUS = 0x01"
definition CMD_SET_PUMP :: byte where "CMD_SET_PUMP = 0x13"
definition CMD_SET_FAN :: byte where "CMD_SET_FAN = 0x12"
definition CMD_SET_LED :: byte where "CMD_SET_LED = 0x23"

definition USB_TIMEOUT :: nat where "USB_TIMEOUT = 1000"

subsection \<open>The status readings\<close>

text \<open>
  \<^verbatim>\<open>corsair_get_status\<close> hands four values to \<^verbatim>\<open>printf\<close>: the expression
  \<^verbatim>\<open>buffer[1] + buffer[2]/10.0\<close>, of type \<^verbatim>\<open>double\<close>, and three expressions
  \<^verbatim>\<open>(buffer[i] << 8) | buffer[i+1]\<close>, of type \<^verbatim>\<open>int\<close>.  The record below holds
  these four arguments.  The \<^verbatim>\<open>int\<close> expressions are computed on 32-bit words, as C
  does after promoting the bytes.  The temperature is the value of the C expression over
  the reals: the rounding of binary floating point is not part of this model.
\<close>

record status_readings =
  liquid_temperature :: real
  pump_speed :: int
  fan1_speed :: int
  fan2_speed :: int

definition be16 :: "byte \<Rightarrow> byte \<Rightarrow> int" where
  "be16 hi lo = sint ((push_bit 8 (ucast hi :: 32 word)) OR (ucast lo :: 32 word))"

definition parse_status :: "byte list \<Rightarrow> status_readings" where
  "parse_status buf =
     \<lparr> liquid_temperature = real (unat (buf ! 1)) + real (unat (buf ! 2)) / 10,
       pump_speed = be16 (buf ! 3) (buf ! 4),
       fan1_speed = be16 (buf ! 5) (buf ! 6),
       fan2_speed = be16 (buf ! 7) (buf ! 8) \<rparr>"

subsection \<open>libusb and the process, as a trace of calls\<close>

text \<open>
  libusb, \<^verbatim>\<open>usleep\<close> and the output streams are outside the program.  Every call the
  program makes to them is recorded, in order, as an event that carries the arguments that
  matter and the value libusb returned.  Calls whose result the program throws away
  (\<^verbatim>\<open>libusb_release_interface\<close>, \<^verbatim>\<open>libusb_attach_kernel_driver\<close>) and calls that
  return nothing carry no result.  The four \<^verbatim>\<open>printf\<close> lines of the status report are one
  event holding the values printed.
\<close>

datatype event =
    Libusb_init int
  | Libusb_exit
  | Libusb_open_device_with_vid_pid nat nat "libusb_device_handle option"
  | Libusb_kernel_driver_active libusb_device_handle int
  | Libusb_detach_kernel_driver libusb_device_handle int
  | Libusb_claim_interface libusb_device_handle int
  | Libusb_release_interface libusb_device_handle
  | Libusb_attach_kernel_driver libusb_device_handle
  | Libusb_close libusb_device_handle
  | Libusb_interrupt_transfer libusb_device_handle byte "byte list" nat int
  | Usleep nat
  | Fprintf_stderr string "int option"
  | Printf_status status_readings

text \<open>
  What libusb answers is not decided by the program.  It is a parameter: for each call
  whose result the program reads, a function from the events so far (and, for a write, the
  frame handed over) to the answer.  A read answers with its return code and the bytes
  the device delivered.
\<close>

record libusb =
  init_result :: "event list \<Rightarrow> int"
  open_result :: "event list \<Rightarrow> libusb_device_handle option"
  kernel_driver_active_result :: "event list \<Rightarrow> int"
  detach_result :: "event list \<Rightarrow> int"
  claim_result :: "event list \<Rightarrow> int"
  write_result :: "event list \<Rightarrow> byte list \<Rightarrow> int"
  read_result :: "event list \<Rightarrow> int \<times> byte list"

text \<open>
  Three things the C program can do have no defined result: copying past the end of the
  64-byte buffer, copying from beyond the end of the caller's array, and handing libusb a
  \<^verbatim>\<open>NULL\<close> handle.  They are not error codes, since the function does not return one; a
  run that reaches one of them is \<open>Inl\<close> of the fault, and says nothing about what was or
  was not transmitted.  A run that returns is \<open>Inr\<close> of the returned \<^verbatim>\<open>int\<close>, the device
  structure and the trace.
\<close>

datatype fault = Buffer_overflow | Source_overread | Null_handle

type_synonym outcome = "fault + (int \<times> corsair_device_t \<times> event list)"

definition memcpy_at :: "byte list \<Rightarrow> nat \<Rightarrow> byte list \<Rightarrow> nat \<Rightarrow> fault + byte list" where
  "memcpy_at dst off src n =
     (if length dst < off + n then Inl Buffer_overflow
      else if length src < n then Inl Source_overread
      else Inr (take off dst @ take n src @ drop (off + n) dst))"

section \<open>The operations\<close>

subsection \<open>corsair\_close\<close>

definition corsair_close :: "corsair_device_t \<Rightarrow> event list \<Rightarrow> corsair_device_t \<times> event list" where
  "corsair_close dev tr =
     (case handle dev of
        None \<Rightarrow> (dev, tr)
      | Some h \<Rightarrow>
          (dev\<lparr>handle := None\<rparr>,
           tr @ [Libusb_release_interface h, Libusb_attach_kernel_driver h,
                 Libusb_close h, Libusb_exit]))"

subsection \<open>corsair\_init\<close>

text \<open>Lines 80 to 104: claim the interface, send the INIT frame, wait.\<close>

definition corsair_init_claim ::
  "libusb \<Rightarrow> libusb_device_handle \<Rightarrow> corsair_device_t \<Rightarrow> event list
     \<Rightarrow> int \<times> corsair_device_t \<times> event list" where
  "corsair_init_claim usb h dev tr =
     (let ret = claim_result usb tr;
          tr1 = tr @ [Libusb_claim_interface h ret]
      in if ret < 0 then
           (ret, dev, tr1 @ [Fprintf_stderr ''Failed to claim interface: %s'' (Some ret),
                             Libusb_close h, Libusb_exit])
         else
           (let buf = (replicate BUFFER_SIZE 0)[0 := CMD_INIT];
                dev1 = dev\<lparr>buffer := buf\<rparr>;
                ret = write_result usb tr1 buf;
                tr2 = tr1 @ [Libusb_interrupt_transfer h EP_OUT buf BUFFER_SIZE ret]
            in if ret < 0 then
                 (let (dev2, tr3) =
                        corsair_close dev1
                          (tr2 @ [Fprintf_stderr ''Failed to initialize device: %s'' (Some ret)])
                  in (ret, dev2, tr3))
               else (0, dev1, tr2 @ [Usleep 500000])))"

definition corsair_init ::
  "libusb \<Rightarrow> corsair_device_t \<Rightarrow> event list \<Rightarrow> int \<times> corsair_device_t \<times> event list" where
  "corsair_init usb dev tr =
     (let ret = init_result usb tr;
          tr1 = tr @ [Libusb_init ret]
      in if ret < 0 then
           (ret, dev, tr1 @ [Fprintf_stderr ''Failed to initialize libusb: %s'' (Some ret)])
         else
           (let ho = open_result usb tr1;
                dev1 = dev\<lparr>handle := ho\<rparr>;
                tr2 = tr1 @ [Libusb_open_device_with_vid_pid CORSAIR_VID H80I_V2_PID ho]
            in case ho of
                 None \<Rightarrow>
                   (- 1, dev1,
                    tr2 @ [Fprintf_stderr ''Could not find or open Corsair H80i V2 device'' None,
                           Libusb_exit])
               | Some h \<Rightarrow>
                   (let active = kernel_driver_active_result usb tr2;
                        tr3 = tr2 @ [Libusb_kernel_driver_active h active]
                    in if active \<noteq> 0 then
                         (let ret = detach_result usb tr3;
                              tr4 = tr3 @ [Libusb_detach_kernel_driver h ret]
                          in if ret < 0 then
                               (ret, dev1,
                                tr4 @ [Fprintf_stderr ''Failed to detach kernel driver: %s'' (Some ret),
                                       Libusb_close h, Libusb_exit])
                             else corsair_init_claim usb h dev1 tr4)
                       else corsair_init_claim usb h dev1 tr3)))"

subsection \<open>corsair\_send\_command and corsair\_receive\_response\<close>

text \<open>
  Lines 111 to 116 fill the buffer: all zero, the opcode in front, then the payload when
  the pointer is not \<^verbatim>\<open>NULL\<close> and the length is positive.  The function has no check of
  \<^verbatim>\<open>data_len\<close> against the room left in the buffer.
\<close>

definition send_command_buffer :: "byte \<Rightarrow> byte list option \<Rightarrow> int \<Rightarrow> fault + byte list" where
  "send_command_buffer cmd data data_len =
     (let buf = (replicate BUFFER_SIZE 0)[0 := cmd]
      in case data of
           None \<Rightarrow> Inr buf
         | Some d \<Rightarrow> if 0 < data_len then memcpy_at buf 1 d (nat data_len) else Inr buf)"

definition corsair_send_command ::
  "libusb \<Rightarrow> corsair_device_t \<Rightarrow> byte \<Rightarrow> byte list option \<Rightarrow> int \<Rightarrow> event list \<Rightarrow> outcome" where
  "corsair_send_command usb dev cmd data data_len tr =
     (case send_command_buffer cmd data data_len of
        Inl f \<Rightarrow> Inl f
      | Inr buf \<Rightarrow>
          (case handle dev of
             None \<Rightarrow> Inl Null_handle
           | Some h \<Rightarrow>
               (let dev1 = dev\<lparr>buffer := buf\<rparr>;
                    ret = write_result usb tr buf;
                    tr1 = tr @ [Libusb_interrupt_transfer h EP_OUT buf BUFFER_SIZE ret]
                in if ret < 0 then
                     Inr (ret, dev1, tr1 @ [Fprintf_stderr ''Failed to send command: %s'' (Some ret)])
                   else Inr (0, dev1, tr1))))"

text \<open>
  A read clears the buffer, then libusb stores what the device delivered, at most 64
  bytes, at its front and reports their number in \<^verbatim>\<open>transferred\<close>.
\<close>

definition corsair_receive_response :: "libusb \<Rightarrow> corsair_device_t \<Rightarrow> event list \<Rightarrow> outcome" where
  "corsair_receive_response usb dev tr =
     (let buf = replicate BUFFER_SIZE 0
      in case handle dev of
           None \<Rightarrow> Inl Null_handle
         | Some h \<Rightarrow>
             (let (ret, rx) = read_result usb tr;
                  got = take BUFFER_SIZE rx;
                  dev1 = dev\<lparr>buffer := got @ drop (length got) buf\<rparr>;
                  transferred = int (length got);
                  tr1 = tr @ [Libusb_interrupt_transfer h EP_IN got BUFFER_SIZE ret]
              in if ret < 0 then
                   Inr (ret, dev1, tr1 @ [Fprintf_stderr ''Failed to receive response: %s'' (Some ret)])
                 else Inr (transferred, dev1, tr1)))"

subsection \<open>The commands\<close>

text \<open>The statement \<^verbatim>\<open>if (speed_percent > 100) speed_percent = 100;\<close> of both setters.\<close>

definition clamp_speed :: "byte \<Rightarrow> byte" where
  "clamp_speed speed_percent = (if 100 < speed_percent then 100 else speed_percent)"

definition corsair_set_pump_speed :: "libusb \<Rightarrow> corsair_device_t \<Rightarrow> byte \<Rightarrow> event list \<Rightarrow> outcome" where
  "corsair_set_pump_speed usb dev speed_percent tr =
     (let data = [0, 0];
          data = data[0 := clamp_speed speed_percent]
      in corsair_send_command usb dev CMD_SET_PUMP (Some data) 2 tr)"

definition corsair_set_fan_speed ::
  "libusb \<Rightarrow> corsair_device_t \<Rightarrow> byte \<Rightarrow> byte \<Rightarrow> event list \<Rightarrow> outcome" where
  "corsair_set_fan_speed usb dev fan_id speed_percent tr =
     (let data = [0, 0];
          data = data[0 := fan_id];
          data = data[1 := clamp_speed speed_percent]
      in corsair_send_command usb dev CMD_SET_FAN (Some data) 2 tr)"

definition corsair_set_led ::
  "libusb \<Rightarrow> corsair_device_t \<Rightarrow> byte \<Rightarrow> byte \<Rightarrow> byte \<Rightarrow> byte \<Rightarrow> event list \<Rightarrow> outcome" where
  "corsair_set_led usb dev mode r g b tr =
     (let data = [0, 0, 0, 0];
          data = data[0 := mode];
          data = data[1 := r];
          data = data[2 := g];
          data = data[3 := b]
      in corsair_send_command usb dev CMD_SET_LED (Some data) 4 tr)"

definition corsair_get_status :: "libusb \<Rightarrow> corsair_device_t \<Rightarrow> event list \<Rightarrow> outcome" where
  "corsair_get_status usb dev tr =
     (case corsair_send_command usb dev CMD_GET_STATUS None 0 tr of
        Inl f \<Rightarrow> Inl f
      | Inr (ret, dev1, tr1) \<Rightarrow>
          if ret < 0 then Inr (ret, dev1, tr1)
          else
            (case corsair_receive_response usb dev1 (tr1 @ [Usleep 50000]) of
               Inl f \<Rightarrow> Inl f
             | Inr (ret, dev2, tr2) \<Rightarrow>
                 if ret < 0 then Inr (ret, dev2, tr2)
                 else Inr (0, dev2, tr2 @ [Printf_status (parse_status (buffer dev2))])))"

section \<open>Observations on a trace\<close>

text \<open>
  The frames put on the output endpoint: for each interrupt transfer on \<^verbatim>\<open>EP_OUT\<close>, the
  bytes of the buffer that the length argument covers.
\<close>

fun transmitted :: "event \<Rightarrow> byte list list" where
  "transmitted (Libusb_interrupt_transfer h ep bytes n ret) =
     (if ep = EP_OUT then [take n bytes] else [])"
| "transmitted _ = []"

definition frames_transmitted :: "event list \<Rightarrow> byte list list" where
  "frames_transmitted evs = concat (map transmitted evs)"

text \<open>The reads attempted: the interrupt transfers on \<^verbatim>\<open>EP_IN\<close>.\<close>

fun is_read :: "event \<Rightarrow> bool" where
  "is_read (Libusb_interrupt_transfer h ep bytes n ret) = (ep = EP_IN)"
| "is_read _ = False"

definition reads_attempted :: "event list \<Rightarrow> nat" where
  "reads_attempted evs = length (filter is_read evs)"

text \<open>The status reports printed.\<close>

fun printed :: "event \<Rightarrow> status_readings list" where
  "printed (Printf_status s) = [s]"
| "printed _ = []"

definition statuses_printed :: "event list \<Rightarrow> status_readings list" where
  "statuses_printed evs = concat (map printed evs)"

text \<open>
  The calls that give resources back: \<^verbatim>\<open>libusb_release_interface\<close> and
  \<^verbatim>\<open>libusb_close\<close>.
\<close>

fun is_release :: "event \<Rightarrow> bool" where
  "is_release (Libusb_release_interface h) = True"
| "is_release _ = False"

definition release_calls :: "event list \<Rightarrow> nat" where
  "release_calls evs = length (filter is_release evs)"

text \<open>
  The resources a run of events leaves held, starting from none: a handle is open from the
  \<^verbatim>\<open>libusb_open_device_with_vid_pid\<close> that returned it to its \<^verbatim>\<open>libusb_close\<close>; its
  interface is claimed from a \<^verbatim>\<open>libusb_claim_interface\<close> that did not return a
  negative code (the program's own test of success) to its
  \<^verbatim>\<open>libusb_release_interface\<close>.  Closing a handle is not taken to release its interface.
\<close>

record resources =
  opened :: "libusb_device_handle set"
  claimed :: "libusb_device_handle set"

fun track :: "resources \<Rightarrow> event \<Rightarrow> resources" where
  "track r (Libusb_open_device_with_vid_pid vid pid (Some h)) = r\<lparr>opened := insert h (opened r)\<rparr>"
| "track r (Libusb_claim_interface h ret) =
     (if ret < 0 then r else r\<lparr>claimed := insert h (claimed r)\<rparr>)"
| "track r (Libusb_release_interface h) = r\<lparr>claimed := claimed r - {h}\<rparr>"
| "track r (Libusb_close h) = r\<lparr>opened := opened r - {h}\<rparr>"
| "track r _ = r"

definition held_after :: "event list \<Rightarrow> resources" where
  "held_after evs = foldl track \<lparr>opened = {}, claimed = {}\<rparr> evs"

section \<open>A frame with known status fields\<close>

text \<open>
  Modelled from the spec: \<^verbatim>\<open>build_frame_with_known_fields(t, p, f1, f2)\<close>, the helper of
  the round-trip property, is not in the source.  The spec fixes where the fields go:
  the temperature's integer part in byte 1 and its decimal digit in byte 2, then pump,
  fan 1 and fan 2 as big-endian 16-bit values in bytes 3 to 8.  The eight bytes are laid
  into a frame by the source's own frame filling, \<open>send_command_buffer\<close>, which puts a
  payload at offset 1.
\<close>

definition status_fields :: "nat \<Rightarrow> nat \<Rightarrow> nat \<Rightarrow> nat \<Rightarrow> nat \<Rightarrow> byte list" where
  "status_fields whole tenth p f1 f2 =
     [of_nat whole, of_nat tenth,
      of_nat (p div 256), of_nat (p mod 256),
      of_nat (f1 div 256), of_nat (f1 mod 256),
      of_nat (f2 div 256), of_nat (f2 mod 256)]"

definition build_frame_with_known_fields ::
  "byte \<Rightarrow> nat \<Rightarrow> nat \<Rightarrow> nat \<Rightarrow> nat \<Rightarrow> nat \<Rightarrow> fault + byte list" where
  "build_frame_with_known_fields opcode whole tenth p f1 f2 =
     send_command_buffer opcode (Some (status_fields whole tenth p f1 f2)) 8"

section \<open>Example surroundings\<close>

text \<open>
  A libusb that answers every call with success and delivers a given frame on every read,
  a variant of it, and a device structure as \<^verbatim>\<open>main\<close> starts with
  (\<^verbatim>\<open>corsair_device_t dev = {0}\<close>) or holds after a successful open.
\<close>

definition usb_ok :: "byte list \<Rightarrow> libusb" where
  "usb_ok rx =
     \<lparr> init_result = (\<lambda>tr. 0), open_result = (\<lambda>tr. Some 1),
       kernel_driver_active_result = (\<lambda>tr. 1), detach_result = (\<lambda>tr. 0),
       claim_result = (\<lambda>tr. 0), write_result = (\<lambda>tr frame. 0),
       read_result = (\<lambda>tr. (0, rx)) \<rparr>"

text \<open>The frame \<^verbatim>\<open>corsair_get_status\<close> asks with: the opcode and 63 zero bytes.\<close>

definition status_request :: "byte list" where
  "status_request = CMD_GET_STATUS # replicate 63 0"

text \<open>
  The code libusb returns for a transfer that timed out (\<^verbatim>\<open>libusb.h\<close>); the program
  never names it, it passes every negative code on.
\<close>

definition LIBUSB_ERROR_TIMEOUT :: int where
  "LIBUSB_ERROR_TIMEOUT = - 7"

definition dev_zero :: corsair_device_t where
  "dev_zero = \<lparr> handle = None, buffer = replicate 64 0 \<rparr>"

definition dev_open :: corsair_device_t where
  "dev_open = \<lparr> handle = Some 1, buffer = replicate 64 0 \<rparr>"

definition example_response :: "byte list" where
  "example_response = [0, 25, 5, 0x0B, 0xB8, 0x0C, 0x1C, 0x0C, 0x1C] @ replicate 55 0"


section \<open>Facts about the decode and the frame filling\<close>

lemma shift_or_is_add:
  "(push_bit 8 (ucast (hi::byte) :: 32 word)) OR (ucast (lo::byte) :: 32 word) = push_bit 8 (ucast hi) + ucast lo"
  apply (rule disjunctive_add_eq_or[symmetric])
  apply (rule bit_eqI)
  apply (auto simp add: bit_simps dest: bit_imp_le_length)
  done

lemma uint_shift_add:
  "uint (push_bit 8 (ucast (hi::byte) :: 32 word) + (ucast (lo::byte) :: 32 word)) = 256 * uint hi + uint lo"
proof -
  have h: "uint hi < 256" using uint_bounded[of hi] by simp
  have l: "uint lo < 256" using uint_bounded[of lo] by simp
  have "uint (ucast hi :: 32 word) = uint hi" by (simp add: uint_up_ucast is_up)
  moreover have "uint (ucast lo :: 32 word) = uint lo" by (simp add: uint_up_ucast is_up)
  ultimately show ?thesis using h l
    by (simp add: uint_word_ariths push_bit_eq_mult uint_mult_lem)
qed

lemma signed_take_bit_small: "0 \<le> k \<Longrightarrow> k < 2 ^ 31 \<Longrightarrow> signed_take_bit (31::nat) (k::int) = k"
  by (simp add: signed_take_bit_int_eq_self)

lemma be16_value: "be16 hi lo = 256 * uint hi + uint lo"
proof -
  have h: "uint hi < 256" "0 \<le> uint hi" using uint_bounded[of hi] by simp_all
  have l: "uint lo < 256" "0 \<le> uint lo" using uint_bounded[of lo] by simp_all
  let ?w = "push_bit 8 (ucast hi :: 32 word) + (ucast lo :: 32 word)"
  have u: "uint ?w = 256 * uint hi + uint lo" by (rule uint_shift_add)
  have "sint ?w = signed_take_bit 31 (uint ?w)" by (simp add: sint_uint)
  also have "\<dots> = uint ?w" using h l unfolding u by (intro signed_take_bit_small) simp_all
  finally show ?thesis by (simp add: be16_def shift_or_is_add u)
qed

lemma parse_status_formula:
  "parse_status buf =
     \<lparr> liquid_temperature = real (unat (buf ! 1)) + real (unat (buf ! 2)) / 10,
       pump_speed = 256 * uint (buf ! 3) + uint (buf ! 4),
       fan1_speed = 256 * uint (buf ! 5) + uint (buf ! 6),
       fan2_speed = 256 * uint (buf ! 7) + uint (buf ! 8) \<rparr>"
  by (simp add: parse_status_def be16_value)

lemma cleared_buffer: "(replicate BUFFER_SIZE 0)[0 := cmd] = cmd # replicate 63 (0::byte)"
proof -
  have "replicate (Suc 63) (0::byte) = 0 # replicate 63 0" by (rule replicate_Suc)
  moreover have "Suc 63 = BUFFER_SIZE" by (simp add: BUFFER_SIZE_def)
  ultimately have "replicate BUFFER_SIZE (0::byte) = 0 # replicate 63 0" by (simp only:)
  then show ?thesis by simp
qed

lemma send_command_buffer_empty:
  "data = None \<or> data_len \<le> 0 \<Longrightarrow> send_command_buffer cmd data data_len = Inr (cmd # replicate 63 0)"
  by (auto simp: send_command_buffer_def cleared_buffer Let_def split: option.splits)

lemma send_command_buffer_payload:
  assumes "length payload \<le> 63"
  shows "send_command_buffer cmd (Some payload) (int (length payload)) =
           Inr (cmd # payload @ replicate (63 - length payload) 0)"
proof (cases "payload = []")
  case True
  then show ?thesis by (simp add: send_command_buffer_empty)
next
  case False
  then have pos: "0 < int (length payload)" by simp
  have "memcpy_at (cmd # replicate 63 0) 1 payload (length payload) =
          Inr (cmd # payload @ replicate (63 - length payload) 0)"
    using assms by (simp add: memcpy_at_def)
  then show ?thesis
    using pos by (simp add: send_command_buffer_def cleared_buffer Let_def)
qed

lemma corsair_send_command_run:
  "handle dev = Some h \<Longrightarrow> send_command_buffer cmd data data_len = Inr buf \<Longrightarrow>
   corsair_send_command usb dev cmd data data_len tr =
     Inr (if write_result usb tr buf < 0 then write_result usb tr buf else 0,
          dev\<lparr>buffer := buf\<rparr>,
          tr @ Libusb_interrupt_transfer h EP_OUT buf BUFFER_SIZE (write_result usb tr buf) #
            (if write_result usb tr buf < 0
             then [Fprintf_stderr ''Failed to send command: %s'' (Some (write_result usb tr buf))] else []))"
  by (simp add: corsair_send_command_def Let_def)

section \<open>Facts about the runs\<close>

lemma frames_transmitted_Nil: "frames_transmitted [] = []"
  by (simp add: frames_transmitted_def)

lemma frames_transmitted_Cons: "frames_transmitted (e # evs) = transmitted e @ frames_transmitted evs"
  by (simp add: frames_transmitted_def)

lemma reads_attempted_Nil: "reads_attempted [] = 0"
  by (simp add: reads_attempted_def)

lemma reads_attempted_Cons:
  "reads_attempted (e # evs) = (if is_read e then Suc (reads_attempted evs) else reads_attempted evs)"
  by (simp add: reads_attempted_def)

lemma statuses_printed_Nil: "statuses_printed [] = []"
  by (simp add: statuses_printed_def)

lemma statuses_printed_Cons: "statuses_printed (e # evs) = printed e @ statuses_printed evs"
  by (simp add: statuses_printed_def)

lemmas trace_simps =
  frames_transmitted_Nil frames_transmitted_Cons reads_attempted_Nil reads_attempted_Cons
  statuses_printed_Nil statuses_printed_Cons

lemma endpoints_differ: "EP_IN \<noteq> EP_OUT"
  by (simp add: EP_IN_def EP_OUT_def)

lemma corsair_send_command_frames:
  assumes "handle dev = Some h" and "send_command_buffer cmd data data_len = Inr buf"
    and "length buf = 64"
  shows "\<exists>ret dev' evs. corsair_send_command usb dev cmd data data_len tr = Inr (ret, dev', tr @ evs)
           \<and> buffer dev' = buf \<and> frames_transmitted evs = [buf] \<and> reads_attempted evs = 0
           \<and> statuses_printed evs = []"
  using assms(3)
  by (simp add: corsair_send_command_run [OF assms(1,2)] trace_simps BUFFER_SIZE_def endpoints_differ endpoints_differ [symmetric])

lemma corsair_receive_response_run:
  assumes "handle dev = Some h" and "read_result usb tr = (ret, rx)" and "length rx = 64"
  shows "corsair_receive_response usb dev tr =
     Inr (if ret < 0 then ret else 64,
          dev\<lparr>buffer := rx\<rparr>,
          tr @ Libusb_interrupt_transfer h EP_IN rx BUFFER_SIZE ret #
            (if ret < 0 then [Fprintf_stderr ''Failed to receive response: %s'' (Some ret)] else []))"
  using assms by (simp add: corsair_receive_response_def Let_def BUFFER_SIZE_def)

lemma corsair_get_status_write_fails:
  assumes "handle dev = Some h" and "write_result usb tr status_request < 0"
  shows "corsair_get_status usb dev tr =
     Inr (write_result usb tr status_request, dev\<lparr>buffer := status_request\<rparr>,
          tr @ [Libusb_interrupt_transfer h EP_OUT status_request BUFFER_SIZE
                  (write_result usb tr status_request),
                Fprintf_stderr ''Failed to send command: %s'' (Some (write_result usb tr status_request))])"
proof -
  have b: "send_command_buffer CMD_GET_STATUS None 0 = Inr status_request"
    by (simp add: send_command_buffer_empty status_request_def)
  show ?thesis
    using assms(2)
    by (simp add: corsair_get_status_def corsair_send_command_run [OF assms(1) b])
qed

lemma corsair_get_status_read:
  assumes "handle dev = Some h" and "0 \<le> write_result usb tr status_request"
    and "read_result usb (tr @ [Libusb_interrupt_transfer h EP_OUT status_request BUFFER_SIZE
                  (write_result usb tr status_request), Usleep 50000]) = (ret, rx)"
    and "length rx = 64"
  shows "corsair_get_status usb dev tr =
     Inr (if ret < 0 then ret else 0, dev\<lparr>buffer := rx\<rparr>,
          tr @ [Libusb_interrupt_transfer h EP_OUT status_request BUFFER_SIZE
                  (write_result usb tr status_request),
                Usleep 50000,
                Libusb_interrupt_transfer h EP_IN rx BUFFER_SIZE ret,
                if ret < 0 then Fprintf_stderr ''Failed to receive response: %s'' (Some ret)
                else Printf_status (parse_status rx)])"
proof -
  have b: "send_command_buffer CMD_GET_STATUS None 0 = Inr status_request"
    by (simp add: send_command_buffer_empty status_request_def)
  have h': "handle (dev\<lparr>buffer := status_request\<rparr>) = Some h"
    using assms(1) by simp
  show ?thesis
    using assms(2)
    by (simp add: corsair_get_status_def corsair_send_command_run [OF assms(1) b]
        corsair_receive_response_run [OF h' assms(3,4)])
qed


section \<open>The status decode\<close>

text \<open>
  C1.  For every 64-byte response frame the decode of \<^verbatim>\<open>corsair_get_status\<close> is a
  function of the frame with no failure case, and it computes: liquid temperature =
  byte 1 plus byte 2 divided by ten, pump speed = the big-endian 16-bit value of bytes 3
  and 4, fan 1 = that of bytes 5 and 6, fan 2 = that of bytes 7 and 8.  A frame whose
  bytes 1 to 8 are 25, 5, 0x0B, 0xB8, 0x0C, 0x1C, 0x0C, 0x1C decodes to 25.5, 3000, 3100
  and 3100.  Whenever the write and the read of \<^verbatim>\<open>corsair_get_status\<close> both succeed and
  the device delivers a 64-byte frame, the function returns 0 and prints exactly the decode
  of that frame.
\<close>

theorem status_decode:
  "(\<forall>frame. length frame = 64 \<longrightarrow>
      parse_status frame =
        \<lparr> liquid_temperature = real (unat (frame ! 1)) + real (unat (frame ! 2)) / 10,
          pump_speed = 256 * uint (frame ! 3) + uint (frame ! 4),
          fan1_speed = 256 * uint (frame ! 5) + uint (frame ! 6),
          fan2_speed = 256 * uint (frame ! 7) + uint (frame ! 8) \<rparr>)
   \<and> (\<forall>b0 rest. length rest = 55 \<longrightarrow>
        parse_status (b0 # [25, 5, 0x0B, 0xB8, 0x0C, 0x1C, 0x0C, 0x1C] @ rest) =
          \<lparr> liquid_temperature = 25.5, pump_speed = 3000, fan1_speed = 3100, fan2_speed = 3100 \<rparr>)
   \<and> (\<forall>usb dev h tr ret frame.
        handle dev = Some h \<and> 0 \<le> write_result usb tr status_request
        \<and> read_result usb (tr @ [Libusb_interrupt_transfer h EP_OUT status_request BUFFER_SIZE
                                    (write_result usb tr status_request), Usleep 50000])
            = (ret, frame)
        \<and> 0 \<le> ret \<and> length frame = 64 \<longrightarrow>
        (\<exists>dev' evs. corsair_get_status usb dev tr = Inr (0, dev', tr @ evs)
           \<and> statuses_printed evs = [parse_status frame]))"
proof (intro conjI allI impI)
  fix frame :: "byte list"
  show "parse_status frame =
        \<lparr> liquid_temperature = real (unat (frame ! 1)) + real (unat (frame ! 2)) / 10,
          pump_speed = 256 * uint (frame ! 3) + uint (frame ! 4),
          fan1_speed = 256 * uint (frame ! 5) + uint (frame ! 6),
          fan2_speed = 256 * uint (frame ! 7) + uint (frame ! 8) \<rparr>"
    by (rule parse_status_formula)
next
  fix b0 :: byte and rest :: "byte list"
  show "parse_status (b0 # [25, 5, 0x0B, 0xB8, 0x0C, 0x1C, 0x0C, 0x1C] @ rest) =
          \<lparr> liquid_temperature = 25.5, pump_speed = 3000, fan1_speed = 3100, fan2_speed = 3100 \<rparr>"
    by (simp add: parse_status_formula)
next
  fix usb :: libusb and dev :: corsair_device_t and h tr ret and frame :: "byte list"
  assume a: "handle dev = Some h \<and> 0 \<le> write_result usb tr status_request
        \<and> read_result usb (tr @ [Libusb_interrupt_transfer h EP_OUT status_request BUFFER_SIZE
                                    (write_result usb tr status_request), Usleep 50000])
            = (ret, frame)
        \<and> 0 \<le> ret \<and> length frame = 64"
  then have "corsair_get_status usb dev tr =
     Inr (if ret < 0 then ret else 0, dev\<lparr>buffer := frame\<rparr>,
          tr @ [Libusb_interrupt_transfer h EP_OUT status_request BUFFER_SIZE
                  (write_result usb tr status_request),
                Usleep 50000,
                Libusb_interrupt_transfer h EP_IN frame BUFFER_SIZE ret,
                if ret < 0 then Fprintf_stderr ''Failed to receive response: %s'' (Some ret)
                else Printf_status (parse_status frame)])"
    by (intro corsair_get_status_read) simp_all
  with a show "\<exists>dev' evs. corsair_get_status usb dev tr = Inr (0, dev', tr @ evs)
           \<and> statuses_printed evs = [parse_status frame]"
    by (simp add: trace_simps)
qed

theorem status_decode_witness:
  "length example_response = 64
   \<and> parse_status example_response =
        \<lparr> liquid_temperature = 25.5, pump_speed = 3000, fan1_speed = 3100, fan2_speed = 3100 \<rparr>
   \<and> (\<exists>dev' evs. corsair_get_status (usb_ok example_response) dev_open [] = Inr (0, dev', evs)
           \<and> statuses_printed evs =
              [\<lparr> liquid_temperature = 25.5, pump_speed = 3000, fan1_speed = 3100, fan2_speed = 3100 \<rparr>])"
proof -
  have len: "length example_response = 64"
    by (simp add: example_response_def)
  have "length (replicate 55 (0::byte)) = 55"
    by simp
  from status_decode [THEN conjunct2, THEN conjunct1, rule_format, OF this, of 0]
  have p: "parse_status example_response =
        \<lparr> liquid_temperature = 25.5, pump_speed = 3000, fan1_speed = 3100, fan2_speed = 3100 \<rparr>"
    by (simp add: example_response_def)
  have "handle dev_open = Some 1 \<and> 0 \<le> write_result (usb_ok example_response) [] status_request
        \<and> read_result (usb_ok example_response)
              ([] @ [Libusb_interrupt_transfer 1 EP_OUT status_request BUFFER_SIZE
                      (write_result (usb_ok example_response) [] status_request), Usleep 50000])
            = (0, example_response)
        \<and> (0::int) \<le> 0 \<and> length example_response = 64"
    using len by (simp add: usb_ok_def dev_open_def)
  from status_decode [THEN conjunct2, THEN conjunct2, rule_format, OF this]
  have "\<exists>dev' evs. corsair_get_status (usb_ok example_response) dev_open [] = Inr (0, dev', evs)
           \<and> statuses_printed evs = [parse_status example_response]"
    by simp
  with len p show ?thesis by simp
qed

text \<open>
  C9.  Two 64-byte response frames that agree on bytes 1 to 8 decode to the same readings:
  byte 0 and bytes 9 to 63 have no influence on the temperature, the pump speed or the fan
  speeds.
\<close>

theorem status_decode_noninterference:
  assumes "length f = 64" and "length g = 64" and "\<forall>i\<in>{1..8}. f ! i = g ! i"
  shows "parse_status f = parse_status g"
proof -
  have "f ! i = g ! i" if "i \<in> {1, 2, 3, 4, 5, 6, 7, 8}" for i
    using assms(3) that by auto
  then show ?thesis by (simp add: parse_status_def)
qed

theorem status_decode_noninterference_witness:
  "length example_response = 64 \<and> length (example_response[0 := 255, 9 := 7, 63 := 1]) = 64
   \<and> take 8 (tl example_response) = take 8 (tl (example_response[0 := 255, 9 := 7, 63 := 1]))
   \<and> example_response[0 := 255, 9 := 7, 63 := 1] \<noteq> example_response
   \<and> parse_status example_response = parse_status (example_response[0 := 255, 9 := 7, 63 := 1])"
proof -
  have len: "length example_response = 64"
    by (simp add: example_response_def)
  have agree: "\<forall>i\<in>{1..8}. example_response ! i = example_response[0 := 255, 9 := 7, 63 := 1] ! i"
    by (simp add: len)
  have same: "take 8 (tl example_response) = take 8 (tl (example_response[0 := 255, 9 := 7, 63 := 1]))"
    by (simp add: example_response_def)
  have "example_response[0 := 255, 9 := 7, 63 := 1] ! 0 \<noteq> example_response ! 0"
    by (simp add: example_response_def)
  then have differ: "example_response[0 := 255, 9 := 7, 63 := 1] \<noteq> example_response"
    by metis
  from status_decode_noninterference [OF len _ agree] len same differ
  show ?thesis by simp
qed

section \<open>Frame construction\<close>

lemma corsair_get_status_transmits:
  assumes "handle dev = Some h"
  shows "\<exists>ret dev' evs. corsair_get_status usb dev tr = Inr (ret, dev', tr @ evs)
           \<and> frames_transmitted evs = [status_request]"
proof -
  have b: "send_command_buffer CMD_GET_STATUS None 0 = Inr status_request"
    by (simp add: send_command_buffer_empty status_request_def)
  have l: "take BUFFER_SIZE status_request = status_request"
    by (simp add: status_request_def BUFFER_SIZE_def)
  show ?thesis
    using assms l
    by (auto simp: corsair_get_status_def corsair_send_command_run [OF assms b]
        corsair_receive_response_def Let_def trace_simps endpoints_differ
        frames_transmitted_def split: prod.splits)
qed

text \<open>
  C10.  A call of \<^verbatim>\<open>corsair_send_command\<close> with a \<^verbatim>\<open>NULL\<close> payload pointer or with
  \<^verbatim>\<open>data_len = 0\<close> is a valid call: nothing is copied, and the frame handed to the
  transfer is the opcode followed by 63 zero bytes.  \<^verbatim>\<open>corsair_get_status\<close> sends its
  \<^verbatim>\<open>CMD_GET_STATUS\<close> request this way.
\<close>

theorem empty_payload_frame:
  assumes "data = None \<or> data_len = 0"
  shows "send_command_buffer cmd data data_len = Inr (cmd # replicate 63 0)
     \<and> (\<forall>usb dev h tr. handle dev = Some h \<longrightarrow>
          (\<exists>ret dev' evs. corsair_send_command usb dev cmd data data_len tr = Inr (ret, dev', tr @ evs)
             \<and> frames_transmitted evs = [cmd # replicate 63 0]))
     \<and> (\<forall>usb dev h tr. handle dev = Some h \<longrightarrow>
          (\<exists>ret dev' evs. corsair_get_status usb dev tr = Inr (ret, dev', tr @ evs)
             \<and> frames_transmitted evs = [CMD_GET_STATUS # replicate 63 0]))"
proof (intro conjI allI impI)
  show b: "send_command_buffer cmd data data_len = Inr (cmd # replicate 63 0)"
    using assms by (intro send_command_buffer_empty) auto
  fix usb :: libusb and dev :: corsair_device_t and h and tr :: "event list"
  assume h: "handle dev = Some h"
  from corsair_send_command_frames [OF h b, of usb tr]
  show "\<exists>ret dev' evs. corsair_send_command usb dev cmd data data_len tr = Inr (ret, dev', tr @ evs)
             \<and> frames_transmitted evs = [cmd # replicate 63 0]"
    by auto
  from corsair_get_status_transmits [OF h, of usb tr]
  show "\<exists>ret dev' evs. corsair_get_status usb dev tr = Inr (ret, dev', tr @ evs)
             \<and> frames_transmitted evs = [CMD_GET_STATUS # replicate 63 0]"
    by (simp add: status_request_def)
qed

theorem empty_payload_frame_witness:
  "send_command_buffer CMD_SET_LED (Some [1, 2, 3]) 0 = Inr (CMD_SET_LED # replicate 63 0)
   \<and> send_command_buffer CMD_GET_STATUS None 0 = Inr (CMD_GET_STATUS # replicate 63 0)
   \<and> (\<exists>ret dev' evs. corsair_send_command (usb_ok []) dev_open CMD_GET_STATUS None 0 [] = Inr (ret, dev', evs)
         \<and> frames_transmitted evs = [CMD_GET_STATUS # replicate 63 0])
   \<and> (\<exists>ret dev' evs. corsair_get_status (usb_ok []) dev_open [] = Inr (ret, dev', evs)
         \<and> frames_transmitted evs = [CMD_GET_STATUS # replicate 63 0])"
proof -
  have a: "Some [1, 2, 3 :: byte] = None \<or> (0::int) = 0" by simp
  have n: "(None :: byte list option) = None \<or> (0::int) = 0" by simp
  have h: "handle dev_open = Some 1" by (simp add: dev_open_def)
  note first = empty_payload_frame [OF a, of CMD_SET_LED, THEN conjunct1]
  note second = empty_payload_frame [OF n, of CMD_GET_STATUS, THEN conjunct1]
  note third = empty_payload_frame [OF n, of CMD_GET_STATUS, THEN conjunct2, THEN conjunct1,
      rule_format, OF h, of "usb_ok []" "[]"]
  note fourth = empty_payload_frame [OF n, of CMD_GET_STATUS, THEN conjunct2, THEN conjunct2,
      rule_format, OF h, of "usb_ok []" "[]"]
  from first second third fourth show ?thesis by simp
qed

text \<open>
  C3.  For every opcode and every payload of length L, L at most 63, the frame built is
  exactly 64 bytes long, has the opcode at offset 0, the payload at offsets 1 to L and
  zero at every offset from L+1 to 63, and the whole 64-byte frame is what the transfer
  sends, whatever L is.
\<close>

theorem frame_construction:
  assumes "length payload \<le> 63"
  shows "\<exists>frame. send_command_buffer cmd (Some payload) (int (length payload)) = Inr frame
      \<and> length frame = 64 \<and> frame ! 0 = cmd
      \<and> (\<forall>i < length payload. frame ! (i + 1) = payload ! i)
      \<and> (\<forall>i. length payload + 1 \<le> i \<and> i < 64 \<longrightarrow> frame ! i = 0)
      \<and> (\<forall>usb dev h tr. handle dev = Some h \<longrightarrow>
           (\<exists>ret dev' evs. corsair_send_command usb dev cmd (Some payload) (int (length payload)) tr
                              = Inr (ret, dev', tr @ evs)
              \<and> frames_transmitted evs = [frame]))"
proof -
  let ?frame = "cmd # payload @ replicate (63 - length payload) 0"
  have b: "send_command_buffer cmd (Some payload) (int (length payload)) = Inr ?frame"
    using assms by (rule send_command_buffer_payload)
  have len: "length ?frame = 64"
    using assms by simp
  have pay: "\<forall>i < length payload. ?frame ! (i + 1) = payload ! i"
    by (simp add: nth_append)
  have zero: "\<forall>i. length payload + 1 \<le> i \<and> i < 64 \<longrightarrow> ?frame ! i = 0"
    using assms by (auto simp: nth_Cons' nth_append)
  have sent: "\<exists>ret dev' evs. corsair_send_command usb dev cmd (Some payload) (int (length payload)) tr
                              = Inr (ret, dev', tr @ evs)
              \<and> frames_transmitted evs = [?frame]"
    if "handle dev = Some h" for usb dev h tr
    using corsair_send_command_frames [OF that b len, of usb tr] by auto
  from b len pay zero sent show ?thesis
    by (intro exI [of _ ?frame]) simp
qed

theorem frame_construction_witness:
  "length [0 :: byte, 0, 255] \<le> 63
   \<and> send_command_buffer CMD_SET_LED (Some [0, 0, 255]) 3 = Inr ([CMD_SET_LED, 0, 0, 255] @ replicate 60 0)
   \<and> (\<exists>ret dev' evs. corsair_send_command (usb_ok []) dev_open CMD_SET_LED (Some [0, 0, 255]) 3 []
                          = Inr (ret, dev', evs)
         \<and> frames_transmitted evs = [[CMD_SET_LED, 0, 0, 255] @ replicate 60 0])"
proof -
  have l: "length [0 :: byte, 0, 255] \<le> 63" by simp
  have h: "handle dev_open = Some 1" by (simp add: dev_open_def)
  from frame_construction [OF l, of CMD_SET_LED]
  obtain frame where
    b: "send_command_buffer CMD_SET_LED (Some [0, 0, 255]) 3 = Inr frame"
    and s: "\<forall>usb dev h tr. handle dev = Some h \<longrightarrow>
           (\<exists>ret dev' evs. corsair_send_command usb dev CMD_SET_LED (Some [0, 0, 255]) 3 tr
                              = Inr (ret, dev', tr @ evs)
              \<and> frames_transmitted evs = [frame])"
    by auto
  have "send_command_buffer CMD_SET_LED (Some [0, 0, 255]) 3
          = Inr ([CMD_SET_LED, 0, 0, 255] @ replicate 60 0)"
    using send_command_buffer_payload [OF l, of CMD_SET_LED] by simp
  with b have f: "frame = [CMD_SET_LED, 0, 0, 255] @ replicate 60 0" by simp
  from s [rule_format, OF h, of "usb_ok []" "[]"] b l show ?thesis
    unfolding f by simp
qed

section \<open>The speed commands\<close>

lemma clamp_speed_idem: "clamp_speed (clamp_speed p) = clamp_speed p"
  by (simp add: clamp_speed_def)

lemma set_pump_speed_payload:
  "corsair_set_pump_speed usb dev p tr =
     corsair_send_command usb dev CMD_SET_PUMP (Some [clamp_speed p, 0]) 2 tr"
  by (simp add: corsair_set_pump_speed_def)

lemma set_fan_speed_payload:
  "corsair_set_fan_speed usb dev fan_id p tr =
     corsair_send_command usb dev CMD_SET_FAN (Some [fan_id, clamp_speed p]) 2 tr"
  by (simp add: corsair_set_fan_speed_def)

lemma two_byte_frame:
  "send_command_buffer cmd (Some [a, b]) 2 = Inr ([cmd, a, b] @ replicate 61 0)"
  using send_command_buffer_payload [of "[a, b]" cmd] by simp

text \<open>
  C2.  For every percent value above 100, \<^verbatim>\<open>corsair_set_pump_speed\<close> and
  \<^verbatim>\<open>corsair_set_fan_speed\<close> send a frame whose percent field is exactly 100, and
  clamping is idempotent (clamping 100 again gives 100); for every percent value from 0 to
  100 the field is the value unchanged.  The pump payload is the two bytes percent, 0 and
  the fan payload is the two bytes fan index, percent.
\<close>

theorem speed_clamped:
  "(100 < p \<longrightarrow> clamp_speed p = 100) \<and> (p \<le> 100 \<longrightarrow> clamp_speed p = p)
   \<and> clamp_speed (clamp_speed p) = clamp_speed p \<and> clamp_speed 100 = 100
   \<and> corsair_set_pump_speed usb dev p tr =
        corsair_send_command usb dev CMD_SET_PUMP (Some [clamp_speed p, 0]) 2 tr
   \<and> corsair_set_fan_speed usb dev fan_id p tr =
        corsair_send_command usb dev CMD_SET_FAN (Some [fan_id, clamp_speed p]) 2 tr
   \<and> (handle dev = Some h \<longrightarrow>
        (\<exists>ret dev' evs. corsair_set_pump_speed usb dev p tr = Inr (ret, dev', tr @ evs)
           \<and> frames_transmitted evs =
               [[CMD_SET_PUMP, if 100 < p then 100 else p, 0] @ replicate 61 0])
        \<and> (\<exists>ret dev' evs. corsair_set_fan_speed usb dev fan_id p tr = Inr (ret, dev', tr @ evs)
           \<and> frames_transmitted evs =
               [[CMD_SET_FAN, fan_id, if 100 < p then 100 else p] @ replicate 61 0]))"
proof -
  have pump: "\<exists>ret dev' evs. corsair_set_pump_speed usb dev p tr = Inr (ret, dev', tr @ evs)
           \<and> frames_transmitted evs =
               [[CMD_SET_PUMP, if 100 < p then 100 else p, 0] @ replicate 61 0]"
    if h: "handle dev = Some h"
    using corsair_send_command_frames [OF h two_byte_frame, of CMD_SET_PUMP "clamp_speed p" 0 usb tr]
    by (auto simp: set_pump_speed_payload clamp_speed_def)
  have fan: "\<exists>ret dev' evs. corsair_set_fan_speed usb dev fan_id p tr = Inr (ret, dev', tr @ evs)
           \<and> frames_transmitted evs =
               [[CMD_SET_FAN, fan_id, if 100 < p then 100 else p] @ replicate 61 0]"
    if h: "handle dev = Some h"
    using corsair_send_command_frames [OF h two_byte_frame, of CMD_SET_FAN fan_id "clamp_speed p" usb tr]
    by (auto simp: set_fan_speed_payload clamp_speed_def)
  have c: "(100 < p \<longrightarrow> clamp_speed p = 100) \<and> (p \<le> 100 \<longrightarrow> clamp_speed p = p)
     \<and> clamp_speed 100 = 100"
    by (auto simp: clamp_speed_def)
  from c pump fan show ?thesis
    by (simp add: clamp_speed_idem set_pump_speed_payload set_fan_speed_payload)
qed

theorem speed_clamped_witness:
  "(100::byte) < 200 \<and> clamp_speed 200 = 100 \<and> (70::byte) \<le> 100 \<and> clamp_speed 70 = 70
   \<and> (\<exists>ret dev' evs. corsair_set_pump_speed (usb_ok []) dev_open 200 [] = Inr (ret, dev', evs)
         \<and> frames_transmitted evs = [[CMD_SET_PUMP, 100, 0] @ replicate 61 0])
   \<and> (\<exists>ret dev' evs. corsair_set_fan_speed (usb_ok []) dev_open 1 200 [] = Inr (ret, dev', evs)
         \<and> frames_transmitted evs = [[CMD_SET_FAN, 1, 100] @ replicate 61 0])
   \<and> (\<exists>ret dev' evs. corsair_set_pump_speed (usb_ok []) dev_open 70 [] = Inr (ret, dev', evs)
         \<and> frames_transmitted evs = [[CMD_SET_PUMP, 70, 0] @ replicate 61 0])
   \<and> (\<exists>ret dev' evs. corsair_set_fan_speed (usb_ok []) dev_open 1 70 [] = Inr (ret, dev', evs)
         \<and> frames_transmitted evs = [[CMD_SET_FAN, 1, 70] @ replicate 61 0])"
proof -
  have h: "handle dev_open = Some 1" by (simp add: dev_open_def)
  have big: "(100::byte) < 200" by simp
  have small: "(70::byte) \<le> 100" by simp
  note hi = speed_clamped [of 200 "usb_ok []" dev_open "[]" 1 1]
  note lo = speed_clamped [of 70 "usb_ok []" dev_open "[]" 1 1]
  from hi big have c200: "clamp_speed 200 = 100" by blast
  from lo small have c70: "clamp_speed 70 = 70" by blast
  from hi h have
    "(\<exists>ret dev' evs. corsair_set_pump_speed (usb_ok []) dev_open 200 [] = Inr (ret, dev', [] @ evs)
         \<and> frames_transmitted evs = [[CMD_SET_PUMP, if (100::byte) < 200 then 100 else 200, 0] @ replicate 61 0])
     \<and> (\<exists>ret dev' evs. corsair_set_fan_speed (usb_ok []) dev_open 1 200 [] = Inr (ret, dev', [] @ evs)
         \<and> frames_transmitted evs = [[CMD_SET_FAN, 1, if (100::byte) < 200 then 100 else 200] @ replicate 61 0])"
    by blast
  then have f200:
    "(\<exists>ret dev' evs. corsair_set_pump_speed (usb_ok []) dev_open 200 [] = Inr (ret, dev', evs)
         \<and> frames_transmitted evs = [[CMD_SET_PUMP, 100, 0] @ replicate 61 0])
     \<and> (\<exists>ret dev' evs. corsair_set_fan_speed (usb_ok []) dev_open 1 200 [] = Inr (ret, dev', evs)
         \<and> frames_transmitted evs = [[CMD_SET_FAN, 1, 100] @ replicate 61 0])"
    by simp
  from lo h have
    "(\<exists>ret dev' evs. corsair_set_pump_speed (usb_ok []) dev_open 70 [] = Inr (ret, dev', [] @ evs)
         \<and> frames_transmitted evs = [[CMD_SET_PUMP, if (100::byte) < 70 then 100 else 70, 0] @ replicate 61 0])
     \<and> (\<exists>ret dev' evs. corsair_set_fan_speed (usb_ok []) dev_open 1 70 [] = Inr (ret, dev', [] @ evs)
         \<and> frames_transmitted evs = [[CMD_SET_FAN, 1, if (100::byte) < 70 then 100 else 70] @ replicate 61 0])"
    by blast
  then have f70:
    "(\<exists>ret dev' evs. corsair_set_pump_speed (usb_ok []) dev_open 70 [] = Inr (ret, dev', evs)
         \<and> frames_transmitted evs = [[CMD_SET_PUMP, 70, 0] @ replicate 61 0])
     \<and> (\<exists>ret dev' evs. corsair_set_fan_speed (usb_ok []) dev_open 1 70 [] = Inr (ret, dev', evs)
         \<and> frames_transmitted evs = [[CMD_SET_FAN, 1, 70] @ replicate 61 0])"
    by simp
  from big small c200 c70 f200 f70 show ?thesis by blast
qed

section \<open>Failure and teardown\<close>

lemma corsair_get_status_read_fails:
  assumes "handle dev = Some h" and "0 \<le> write_result usb tr status_request"
    and "fst (read_result usb (tr @ [Libusb_interrupt_transfer h EP_OUT status_request BUFFER_SIZE
                  (write_result usb tr status_request), Usleep 50000])) < 0"
  shows "\<exists>dev' got. corsair_get_status usb dev tr =
     Inr (fst (read_result usb (tr @ [Libusb_interrupt_transfer h EP_OUT status_request BUFFER_SIZE
                  (write_result usb tr status_request), Usleep 50000])), dev',
          tr @ [Libusb_interrupt_transfer h EP_OUT status_request BUFFER_SIZE
                  (write_result usb tr status_request),
                Usleep 50000,
                Libusb_interrupt_transfer h EP_IN got BUFFER_SIZE
                  (fst (read_result usb (tr @ [Libusb_interrupt_transfer h EP_OUT status_request BUFFER_SIZE
                  (write_result usb tr status_request), Usleep 50000]))),
                Fprintf_stderr ''Failed to receive response: %s''
                  (Some (fst (read_result usb (tr @ [Libusb_interrupt_transfer h EP_OUT status_request BUFFER_SIZE
                  (write_result usb tr status_request), Usleep 50000]))))])"
proof -
  have b: "send_command_buffer CMD_GET_STATUS None 0 = Inr status_request"
    by (simp add: send_command_buffer_empty status_request_def)
  show ?thesis
    using assms
    by (auto simp: corsair_get_status_def corsair_send_command_run [OF assms(1) b]
        corsair_receive_response_def Let_def split: prod.splits)
qed

lemma release_calls_append: "release_calls (xs @ ys) = release_calls xs + release_calls ys"
  by (simp add: release_calls_def)

text \<open>
  C5.  In \<^verbatim>\<open>corsair_get_status\<close>: when the write fails, the function returns the write's
  error code and attempts no read; when the write succeeds and the read fails (a timeout is
  the code \<^verbatim>\<open>LIBUSB_ERROR_TIMEOUT\<close>), the function returns the read's error code and
  prints no status, the decode not being reached.
\<close>

theorem get_status_aborts:
  assumes "handle dev = Some h"
  shows "(write_result usb tr status_request < 0 \<longrightarrow>
           (\<exists>dev' evs. corsair_get_status usb dev tr =
                          Inr (write_result usb tr status_request, dev', tr @ evs)
              \<and> reads_attempted evs = 0 \<and> statuses_printed evs = []))
       \<and> (0 \<le> write_result usb tr status_request
          \<and> fst (read_result usb
                   (tr @ [Libusb_interrupt_transfer h EP_OUT status_request BUFFER_SIZE
                            (write_result usb tr status_request), Usleep 50000])) < 0 \<longrightarrow>
           (\<exists>dev' evs. corsair_get_status usb dev tr =
                          Inr (fst (read_result usb
                                 (tr @ [Libusb_interrupt_transfer h EP_OUT status_request BUFFER_SIZE
                                          (write_result usb tr status_request), Usleep 50000])),
                               dev', tr @ evs)
              \<and> reads_attempted evs = 1 \<and> statuses_printed evs = []))"
proof (intro conjI impI)
  assume "write_result usb tr status_request < 0"
  from corsair_get_status_write_fails [OF assms this]
  show "\<exists>dev' evs. corsair_get_status usb dev tr =
                          Inr (write_result usb tr status_request, dev', tr @ evs)
              \<and> reads_attempted evs = 0 \<and> statuses_printed evs = []"
    by (simp add: trace_simps endpoints_differ [symmetric])
next
  let ?tr = "tr @ [Libusb_interrupt_transfer h EP_OUT status_request BUFFER_SIZE
                            (write_result usb tr status_request), Usleep 50000]"
  assume "0 \<le> write_result usb tr status_request \<and> fst (read_result usb ?tr) < 0"
  then have w: "0 \<le> write_result usb tr status_request" and r: "fst (read_result usb ?tr) < 0"
    by simp_all
  from corsair_get_status_read_fails [OF assms w r]
  show "\<exists>dev' evs. corsair_get_status usb dev tr = Inr (fst (read_result usb ?tr), dev', tr @ evs)
              \<and> reads_attempted evs = 1 \<and> statuses_printed evs = []"
    by (auto simp: trace_simps endpoints_differ [symmetric])
qed

theorem get_status_aborts_witness:
  "(\<exists>dev' evs. corsair_get_status ((usb_ok [])\<lparr>write_result := \<lambda>tr frame. - 4\<rparr>) dev_open [] =
                  Inr (- 4, dev', evs)
      \<and> reads_attempted evs = 0 \<and> statuses_printed evs = [])
   \<and> (\<exists>dev' evs. corsair_get_status ((usb_ok [])\<lparr>read_result := \<lambda>tr. (LIBUSB_ERROR_TIMEOUT, [])\<rparr>)
                     dev_open [] =
                  Inr (LIBUSB_ERROR_TIMEOUT, dev', evs)
      \<and> reads_attempted evs = 1 \<and> statuses_printed evs = [])"
proof -
  have h: "handle dev_open = Some 1" by (simp add: dev_open_def)
  note w = get_status_aborts [OF h, of "(usb_ok [])\<lparr>write_result := \<lambda>tr frame. - 4\<rparr>" "[]",
      THEN conjunct1]
  note r = get_status_aborts [OF h, of "(usb_ok [])\<lparr>read_result := \<lambda>tr. (LIBUSB_ERROR_TIMEOUT, [])\<rparr>" "[]",
      THEN conjunct2]
  from w have first: "\<exists>dev' evs. corsair_get_status ((usb_ok [])\<lparr>write_result := \<lambda>tr frame. - 4\<rparr>) dev_open [] =
                  Inr (- 4, dev', evs)
      \<and> reads_attempted evs = 0 \<and> statuses_printed evs = []"
    by (simp add: usb_ok_def)
  from r have second: "\<exists>dev' evs. corsair_get_status ((usb_ok [])\<lparr>read_result := \<lambda>tr. (LIBUSB_ERROR_TIMEOUT, [])\<rparr>)
                     dev_open [] =
                  Inr (LIBUSB_ERROR_TIMEOUT, dev', evs)
      \<and> reads_attempted evs = 1 \<and> statuses_printed evs = []"
    by (simp add: usb_ok_def LIBUSB_ERROR_TIMEOUT_def)
  from first second show ?thesis by blast
qed

text \<open>
  C6.  \<^verbatim>\<open>corsair_close\<close> is idempotent: a second call in sequence, or a call on a
  structure whose handle was never set, changes nothing and makes no libusb call, so the
  interface is released at most once; the first effective call sets the handle to
  \<^verbatim>\<open>NULL\<close>.
\<close>

theorem release_idempotent:
  "corsair_close (fst (corsair_close dev tr)) (snd (corsair_close dev tr)) = corsair_close dev tr
   \<and> handle (fst (corsair_close dev tr)) = None
   \<and> (handle dev = None \<longrightarrow> corsair_close dev tr = (dev, tr))
   \<and> (handle dev \<noteq> None \<longrightarrow> release_calls (snd (corsair_close dev tr)) = release_calls tr + 1)
   \<and> release_calls (snd (corsair_close (fst (corsair_close dev tr)) (snd (corsair_close dev tr))))
       = release_calls (snd (corsair_close dev tr))"
  by (auto simp: corsair_close_def release_calls_append release_calls_def split: option.splits)

theorem release_idempotent_witness:
  "corsair_close dev_zero [] = (dev_zero, [])
   \<and> corsair_close dev_open [] =
        (dev_zero, [Libusb_release_interface 1, Libusb_attach_kernel_driver 1, Libusb_close 1, Libusb_exit])
   \<and> corsair_close (fst (corsair_close dev_open [])) (snd (corsair_close dev_open [])) =
        (dev_zero, [Libusb_release_interface 1, Libusb_attach_kernel_driver 1, Libusb_close 1, Libusb_exit])
   \<and> release_calls (snd (corsair_close (fst (corsair_close dev_open [])) (snd (corsair_close dev_open []))))
        = 1"
proof -
  have z: "handle dev_zero = None" by (simp add: dev_zero_def)
  have o: "handle dev_open \<noteq> None" by (simp add: dev_open_def)
  have c: "corsair_close dev_open [] =
        (dev_zero, [Libusb_release_interface 1, Libusb_attach_kernel_driver 1, Libusb_close 1, Libusb_exit])"
    by (simp add: corsair_close_def dev_open_def dev_zero_def)
  note a = release_idempotent [of dev_zero "[]"]
  note b = release_idempotent [of dev_open "[]"]
  from a z have first: "corsair_close dev_zero [] = (dev_zero, [])" by blast
  from b have twice: "corsair_close (fst (corsair_close dev_open [])) (snd (corsair_close dev_open []))
      = corsair_close dev_open []" by blast
  from b o have "release_calls (snd (corsair_close dev_open [])) = release_calls [] + 1" by blast
  then have one: "release_calls (snd (corsair_close dev_open [])) = 1"
    by (simp add: release_calls_def)
  from first c twice one show ?thesis by simp
qed

section \<open>Round trip of the status fields\<close>

lemma byte_of_nat_unat: "n < 256 \<Longrightarrow> unat (of_nat n :: byte) = n"
  by (simp add: unat_of_nat)

lemma byte_of_nat_uint: "n < 256 \<Longrightarrow> uint (of_nat n :: byte) = int n"
  by (simp only: uint_nat byte_of_nat_unat)

lemma be16_split: 
  assumes "p < 65536"
  shows "be16 (of_nat (p div 256)) (of_nat (p mod 256)) = int p"
proof -
  have hi: "p div 256 < 256" using assms by simp
  have lo: "p mod 256 < 256" by simp
  have "be16 (of_nat (p div 256)) (of_nat (p mod 256)) = 256 * int (p div 256) + int (p mod 256)"
    by (simp only: be16_value byte_of_nat_uint [OF hi] byte_of_nat_uint [OF lo])
  also have "\<dots> = int (256 * (p div 256) + p mod 256)" by (simp only: of_nat_add of_nat_mult of_nat_numeral)
  also have "256 * (p div 256) + p mod 256 = p" by (rule mult_div_mod_eq)
  finally show ?thesis .
qed

lemma known_fields_frame:
  "build_frame_with_known_fields opcode whole tenth p f1 f2 =
     Inr (opcode # status_fields whole tenth p f1 f2 @ replicate 55 0)"
  using send_command_buffer_payload [of "status_fields whole tenth p f1 f2" opcode]
  by (simp add: build_frame_with_known_fields_def status_fields_def)

text \<open>
  C7.  For every representable tuple of fields, that is a temperature with an integer part
  of one byte and a single decimal digit, and 16-bit pump and fan speeds, laying the fields
  into a frame at the documented offsets and decoding the frame gives back the
  temperature and the three speeds exactly.
\<close>

theorem status_round_trip:
  assumes "whole \<le> 255" and "tenth \<le> 9" and "p < 65536" and "f1 < 65536" and "f2 < 65536"
  shows "\<exists>frame. build_frame_with_known_fields opcode whole tenth p f1 f2 = Inr frame
           \<and> length frame = 64
           \<and> parse_status frame =
               \<lparr> liquid_temperature = real whole + real tenth / 10,
                 pump_speed = int p, fan1_speed = int f1, fan2_speed = int f2 \<rparr>"
proof -
  let ?frame = "opcode # status_fields whole tenth p f1 f2 @ replicate 55 0"
  have w: "unat (of_nat whole :: byte) = whole"
    using assms(1) by (intro byte_of_nat_unat) simp
  have t: "unat (of_nat tenth :: byte) = tenth"
    using assms(2) by (intro byte_of_nat_unat) simp
  have "parse_status ?frame =
               \<lparr> liquid_temperature = real whole + real tenth / 10,
                 pump_speed = int p, fan1_speed = int f1, fan2_speed = int f2 \<rparr>"
    by (simp add: parse_status_def status_fields_def w t be16_split assms)
  moreover have "length ?frame = 64"
    by (simp add: status_fields_def)
  ultimately show ?thesis
    by (simp add: known_fields_frame)
qed

theorem status_round_trip_witness:
  "(25::nat) \<le> 255 \<and> (5::nat) \<le> 9 \<and> (3000::nat) < 65536 \<and> (3100::nat) < 65536 \<and> (65535::nat) < 65536
   \<and> build_frame_with_known_fields CMD_GET_STATUS 25 5 3000 3100 65535
        = Inr ([CMD_GET_STATUS, 25, 5, 0x0B, 0xB8, 0x0C, 0x1C, 0xFF, 0xFF] @ replicate 55 0)
   \<and> parse_status ([CMD_GET_STATUS, 25, 5, 0x0B, 0xB8, 0x0C, 0x1C, 0xFF, 0xFF] @ replicate 55 0) =
        \<lparr> liquid_temperature = 25.5, pump_speed = 3000, fan1_speed = 3100, fan2_speed = 65535 \<rparr>"
proof -
  have f: "build_frame_with_known_fields CMD_GET_STATUS 25 5 3000 3100 65535
        = Inr ([CMD_GET_STATUS, 25, 5, 0x0B, 0xB8, 0x0C, 0x1C, 0xFF, 0xFF] @ replicate 55 0)"
    by (simp add: known_fields_frame status_fields_def)
  from status_round_trip [of 25 5 3000 3100 65535 CMD_GET_STATUS] f
  show ?thesis by simp
qed

section \<open>Failed initialisation\<close>

lemma corsair_init_claim_failure:
  assumes "handle dev = Some h" and "corsair_init_claim usb h dev tr = (ret, dev', tr')" and "ret < 0"
  shows "\<exists>evs. tr' = tr @ evs
           \<and> foldl track \<lparr>opened = {h}, claimed = {}\<rparr> evs = \<lparr>opened = {}, claimed = {}\<rparr>"
  using assms
  by (auto simp: corsair_init_claim_def corsair_close_def Let_def split: if_splits)

text \<open>
  C8.  On every exit of \<^verbatim>\<open>corsair_init\<close> with a negative return code, the events of the
  call leave nothing held: a handle that was opened has been closed and an interface that
  was claimed has been released before the function returns.  This includes the exit
  after a failed INIT transfer, where the interface is already claimed and
  \<^verbatim>\<open>corsair_close\<close> gives it back.
\<close>

theorem init_failure_releases:
  assumes "corsair_init usb dev tr = (ret, dev', tr')" and "ret < 0"
  shows "\<exists>evs. tr' = tr @ evs \<and> held_after evs = \<lparr>opened = {}, claimed = {}\<rparr>"
proof (cases "init_result usb tr < 0")
  case True
  with assms show ?thesis
    by (auto simp: corsair_init_def Let_def held_after_def)
next
  case ok: False
  let ?tr1 = "tr @ [Libusb_init (init_result usb tr)]"
  show ?thesis
  proof (cases "open_result usb ?tr1")
    case None
    with ok assms show ?thesis
      by (auto simp: corsair_init_def Let_def held_after_def)
  next
    case (Some h)
    let ?dev1 = "dev\<lparr>handle := Some h\<rparr>"
    let ?tr2 = "?tr1 @ [Libusb_open_device_with_vid_pid CORSAIR_VID H80I_V2_PID (Some h)]"
    let ?tr3 = "?tr2 @ [Libusb_kernel_driver_active h (kernel_driver_active_result usb ?tr2)]"
    let ?tr4 = "?tr3 @ [Libusb_detach_kernel_driver h (detach_result usb ?tr3)]"
    let ?r = "\<lparr>opened = {h}, claimed = {}\<rparr>"
    have h1: "handle ?dev1 = Some h" by simp
    consider (detach_fails) "kernel_driver_active_result usb ?tr2 \<noteq> 0" "detach_result usb ?tr3 < 0"
      | (detached) "kernel_driver_active_result usb ?tr2 \<noteq> 0" "\<not> detach_result usb ?tr3 < 0"
      | (inactive) "kernel_driver_active_result usb ?tr2 = 0"
      by blast
    then show ?thesis
    proof cases
      case detach_fails
      with ok Some assms show ?thesis
        by (auto simp: corsair_init_def Let_def held_after_def)
    next
      case detached
      with ok Some assms have c: "corsair_init_claim usb h ?dev1 ?tr4 = (ret, dev', tr')"
        by (simp add: corsair_init_def Let_def)
      from corsair_init_claim_failure [OF h1 c assms(2)]
      obtain evs where "tr' = ?tr4 @ evs" and "foldl track ?r evs = \<lparr>opened = {}, claimed = {}\<rparr>"
        by auto
      then show ?thesis
        by (auto simp: held_after_def)
    next
      case inactive
      with ok Some assms have c: "corsair_init_claim usb h ?dev1 ?tr3 = (ret, dev', tr')"
        by (simp add: corsair_init_def Let_def)
      from corsair_init_claim_failure [OF h1 c assms(2)]
      obtain evs where "tr' = ?tr3 @ evs" and "foldl track ?r evs = \<lparr>opened = {}, claimed = {}\<rparr>"
        by auto
      then show ?thesis
        by (auto simp: held_after_def)
    qed
  qed
qed


theorem init_failure_releases_witness:
  "corsair_init ((usb_ok [])\<lparr>write_result := \<lambda>tr frame. LIBUSB_ERROR_TIMEOUT\<rparr>) dev_zero [] =
     (LIBUSB_ERROR_TIMEOUT, dev_zero\<lparr>buffer := CMD_INIT # replicate 63 0\<rparr>,
      [Libusb_init 0,
       Libusb_open_device_with_vid_pid CORSAIR_VID H80I_V2_PID (Some 1),
       Libusb_kernel_driver_active 1 1,
       Libusb_detach_kernel_driver 1 0,
       Libusb_claim_interface 1 0,
       Libusb_interrupt_transfer 1 EP_OUT (CMD_INIT # replicate 63 0) BUFFER_SIZE LIBUSB_ERROR_TIMEOUT,
       Fprintf_stderr ''Failed to initialize device: %s'' (Some LIBUSB_ERROR_TIMEOUT),
       Libusb_release_interface 1,
       Libusb_attach_kernel_driver 1,
       Libusb_close 1,
       Libusb_exit])
   \<and> LIBUSB_ERROR_TIMEOUT < 0
   \<and> held_after
        [Libusb_init 0,
         Libusb_open_device_with_vid_pid CORSAIR_VID H80I_V2_PID (Some 1),
         Libusb_kernel_driver_active 1 1,
         Libusb_detach_kernel_driver 1 0,
         Libusb_claim_interface 1 0,
         Libusb_interrupt_transfer 1 EP_OUT (CMD_INIT # replicate 63 0) BUFFER_SIZE LIBUSB_ERROR_TIMEOUT]
       = \<lparr>opened = {1}, claimed = {1}\<rparr>
   \<and> held_after
        [Libusb_init 0,
         Libusb_open_device_with_vid_pid CORSAIR_VID H80I_V2_PID (Some 1),
         Libusb_kernel_driver_active 1 1,
         Libusb_detach_kernel_driver 1 0,
         Libusb_claim_interface 1 0,
         Libusb_interrupt_transfer 1 EP_OUT (CMD_INIT # replicate 63 0) BUFFER_SIZE LIBUSB_ERROR_TIMEOUT,
         Fprintf_stderr ''Failed to initialize device: %s'' (Some LIBUSB_ERROR_TIMEOUT),
         Libusb_release_interface 1,
         Libusb_attach_kernel_driver 1,
         Libusb_close 1,
         Libusb_exit]
       = \<lparr>opened = {}, claimed = {}\<rparr>"
proof -
  let ?evs = "[Libusb_init 0,
       Libusb_open_device_with_vid_pid CORSAIR_VID H80I_V2_PID (Some 1),
       Libusb_kernel_driver_active 1 1,
       Libusb_detach_kernel_driver 1 0,
       Libusb_claim_interface 1 0,
       Libusb_interrupt_transfer 1 EP_OUT (CMD_INIT # replicate 63 0) BUFFER_SIZE LIBUSB_ERROR_TIMEOUT,
       Fprintf_stderr ''Failed to initialize device: %s'' (Some LIBUSB_ERROR_TIMEOUT),
       Libusb_release_interface 1,
       Libusb_attach_kernel_driver 1,
       Libusb_close 1,
       Libusb_exit]"
  have neg: "LIBUSB_ERROR_TIMEOUT < 0"
    by (simp add: LIBUSB_ERROR_TIMEOUT_def)
  have run: "corsair_init ((usb_ok [])\<lparr>write_result := \<lambda>tr frame. LIBUSB_ERROR_TIMEOUT\<rparr>) dev_zero [] =
     (LIBUSB_ERROR_TIMEOUT, dev_zero\<lparr>buffer := CMD_INIT # replicate 63 0\<rparr>, ?evs)"
    using neg
    by (simp add: corsair_init_def corsair_init_claim_def corsair_close_def usb_ok_def dev_zero_def
        cleared_buffer Let_def)
  have before: "held_after (take 6 ?evs) = \<lparr>opened = {1}, claimed = {1}\<rparr>"
    by (simp add: held_after_def)
  from init_failure_releases [OF run neg] have "held_after ?evs = \<lparr>opened = {}, claimed = {}\<rparr>"
    by simp
  with run neg before show ?thesis by simp
qed

section \<open>Payloads longer than the frame\<close>

lemma oversized_memcpy:
  "63 < n \<Longrightarrow> memcpy_at (cmd # replicate 63 0) 1 d n = Inl Buffer_overflow"
  by (simp add: memcpy_at_def)

lemma send_command_buffer_within:
  assumes "send_command_buffer cmd data data_len = Inr buf"
  shows "data = None \<or> data_len \<le> 63"
proof (rule ccontr)
  assume "\<not> (data = None \<or> data_len \<le> 63)"
  then obtain d where d: "data = Some d" and big: "63 < data_len"
    by auto
  from big have "63 < nat data_len" by simp
  then have "memcpy_at (cmd # replicate 63 0) 1 d (nat data_len) = Inl Buffer_overflow"
    by (rule oversized_memcpy)
  with d big have "send_command_buffer cmd data data_len = Inl Buffer_overflow"
    by (simp add: send_command_buffer_def cleared_buffer Let_def)
  with assms show False by simp
qed

text \<open>
  C4, as stated: a payload of more than 63 bytes makes frame construction fail with a
  PayloadTooLarge error.  \<^verbatim>\<open>corsair_send_command\<close> has no such check and no such error
  code.  With a 64-byte payload the \<^verbatim>\<open>memcpy\<close> at offset 1 runs one byte past the
  buffer: the call does not return an error code, its behaviour is undefined.
\<close>

theorem oversized_payload_counterexample:
  "corsair_send_command (usb_ok []) dev_open CMD_SET_LED (Some (replicate 64 1)) 64 []
     = Inl Buffer_overflow"
  by (simp add: corsair_send_command_def send_command_buffer_def cleared_buffer memcpy_at_def Let_def)

text \<open>
  C4, amended.  For every payload longer than 63 bytes, given with a pointer that is not
  \<^verbatim>\<open>NULL\<close>, \<^verbatim>\<open>corsair_send_command\<close> returns no error: the copy overruns the 64-byte
  buffer and the call has no defined result.  Whenever \<^verbatim>\<open>corsair_send_command\<close> does
  return a negative code, the payload fitted (or was absent), a full 64-byte frame was
  handed to the transfer, and the code is the one libusb returned for that transfer.
\<close>

theorem oversized_payload_unchecked:
  "(63 < data_len \<longrightarrow>
      corsair_send_command usb dev cmd (Some d) data_len tr = Inl Buffer_overflow)
   \<and> (corsair_send_command usb dev cmd data data_len tr = Inr (ret, dev', tr') \<and> ret < 0 \<longrightarrow>
        (data = None \<or> data_len \<le> 63)
        \<and> (\<exists>h frame. handle dev = Some h \<and> length frame = 64 \<and> ret = write_result usb tr frame
              \<and> tr' = tr @ [Libusb_interrupt_transfer h EP_OUT frame BUFFER_SIZE ret,
                             Fprintf_stderr ''Failed to send command: %s'' (Some ret)]))"
proof (intro conjI impI)
  assume big: "63 < data_len"
  then have "63 < nat data_len" by simp
  then have "memcpy_at (cmd # replicate 63 0) 1 d (nat data_len) = Inl Buffer_overflow"
    by (rule oversized_memcpy)
  with big show "corsair_send_command usb dev cmd (Some d) data_len tr = Inl Buffer_overflow"
    by (simp add: corsair_send_command_def send_command_buffer_def cleared_buffer Let_def)
next
  assume a: "corsair_send_command usb dev cmd data data_len tr = Inr (ret, dev', tr') \<and> ret < 0"
  then obtain buf where b: "send_command_buffer cmd data data_len = Inr buf"
    by (auto simp: corsair_send_command_def split: sum.splits)
  then show "data = None \<or> data_len \<le> 63"
    by (rule send_command_buffer_within)
  have len: "length buf = 64"
    using b
    by (auto simp: send_command_buffer_def cleared_buffer memcpy_at_def Let_def
        split: option.splits if_splits)
  from a b obtain h where h: "handle dev = Some h"
    by (auto simp: corsair_send_command_def split: option.splits)
  from a show "\<exists>h frame. handle dev = Some h \<and> length frame = 64 \<and> ret = write_result usb tr frame
              \<and> tr' = tr @ [Libusb_interrupt_transfer h EP_OUT frame BUFFER_SIZE ret,
                             Fprintf_stderr ''Failed to send command: %s'' (Some ret)]"
    using len h by (auto simp: corsair_send_command_run [OF h b] split: if_splits)
qed

theorem oversized_payload_unchecked_witness:
  "(63::int) < 200
   \<and> corsair_send_command (usb_ok []) dev_open CMD_SET_LED (Some (replicate 200 1)) 200 []
       = Inl Buffer_overflow
   \<and> corsair_send_command ((usb_ok [])\<lparr>write_result := \<lambda>tr frame. LIBUSB_ERROR_TIMEOUT\<rparr>)
         dev_open CMD_SET_LED (Some [2, 0, 0, 255]) 4 []
       = Inr (LIBUSB_ERROR_TIMEOUT, dev_open\<lparr>buffer := [CMD_SET_LED, 2, 0, 0, 255] @ replicate 59 0\<rparr>,
              [Libusb_interrupt_transfer 1 EP_OUT ([CMD_SET_LED, 2, 0, 0, 255] @ replicate 59 0)
                 BUFFER_SIZE LIBUSB_ERROR_TIMEOUT,
               Fprintf_stderr ''Failed to send command: %s'' (Some LIBUSB_ERROR_TIMEOUT)])
   \<and> LIBUSB_ERROR_TIMEOUT < 0
   \<and> (\<exists>h frame. handle dev_open = Some h \<and> length frame = 64
         \<and> LIBUSB_ERROR_TIMEOUT
             = write_result ((usb_ok [])\<lparr>write_result := \<lambda>tr frame. LIBUSB_ERROR_TIMEOUT\<rparr>) [] frame)"
proof -
  have big: "(63::int) < 200" by simp
  have neg: "LIBUSB_ERROR_TIMEOUT < 0"
    by (simp add: LIBUSB_ERROR_TIMEOUT_def)
  have h: "handle dev_open = Some 1" by (simp add: dev_open_def)
  have b: "send_command_buffer CMD_SET_LED (Some [2, 0, 0, 255]) 4
             = Inr ([CMD_SET_LED, 2, 0, 0, 255] @ replicate 59 0)"
    using send_command_buffer_payload [of "[2, 0, 0, 255]" CMD_SET_LED] by simp
  have run: "corsair_send_command ((usb_ok [])\<lparr>write_result := \<lambda>tr frame. LIBUSB_ERROR_TIMEOUT\<rparr>)
         dev_open CMD_SET_LED (Some [2, 0, 0, 255]) 4 []
       = Inr (LIBUSB_ERROR_TIMEOUT, dev_open\<lparr>buffer := [CMD_SET_LED, 2, 0, 0, 255] @ replicate 59 0\<rparr>,
              [Libusb_interrupt_transfer 1 EP_OUT ([CMD_SET_LED, 2, 0, 0, 255] @ replicate 59 0)
                 BUFFER_SIZE LIBUSB_ERROR_TIMEOUT,
               Fprintf_stderr ''Failed to send command: %s'' (Some LIBUSB_ERROR_TIMEOUT)])"
    using neg by (simp add: corsair_send_command_run [OF h b] usb_ok_def)
  note first = oversized_payload_unchecked [THEN conjunct1, rule_format, OF big,
      of "usb_ok []" dev_open CMD_SET_LED "replicate 200 1" "[]"]
  note second = oversized_payload_unchecked [THEN conjunct2, rule_format, OF conjI [OF run neg]]
  from second have "\<exists>h frame. handle dev_open = Some h \<and> length frame = 64
         \<and> LIBUSB_ERROR_TIMEOUT
             = write_result ((usb_ok [])\<lparr>write_result := \<lambda>tr frame. LIBUSB_ERROR_TIMEOUT\<rparr>) [] frame"
    by blast
  with big first run neg show ?thesis by blast
qed

end
